theory Spec2Isabelle
  imports Main "HOL-Library.Word"
begin

section \<open>The SRP-6a client of bsrp (python/lib/bsrp/client.py)\<close>

subsection \<open>Values and exceptions\<close>

text \<open>
  Python's \<open>bytes\<close> is a list of 8-bit words, \<open>str\<close> is a \<open>string\<close> and \<open>int\<close> is the
  unbounded \<open>int\<close>. The two exception classes the client raises carry their message;
  \<open>ValueError\<close> and \<open>OverflowError\<close> are the builtin exceptions of \<open>pow\<close> and of the
  integer-to-bytes conversion, and \<open>UpstreamFailure\<close> stands for whatever an external
  collaborator (random source, hash) may raise.
\<close>

type_synonym bytes = "8 word list"

datatype error =
    SafetyException string
  | EvidenceException string
  | ValueError
  | OverflowError
  | UpstreamFailure string

text \<open>A raise ends the computation: the rest of the function body runs on a result only.\<close>

definition bind_result :: "error + 'a \<Rightarrow> ('a \<Rightarrow> error + 'b) \<Rightarrow> error + 'b" where
  "bind_result m f = (case m of Inl e \<Rightarrow> Inl e | Inr v \<Rightarrow> f v)"

subsection \<open>Python builtins used by the client\<close>

text \<open>\<open>int.bit_length()\<close>: the number of bits of the absolute value, 0 for 0.\<close>

fun bit_length_nat :: "nat \<Rightarrow> nat" where
  "bit_length_nat n = (if n = 0 then 0 else Suc (bit_length_nat (n div 2)))"

declare bit_length_nat.simps [simp del]

definition bit_length :: "int \<Rightarrow> nat" where
  "bit_length i = bit_length_nat (nat \<bar>i\<bar>)"

text \<open>
  The three-argument \<open>pow(base, exp, mod)\<close> on integers: \<open>ValueError\<close> for a zero
  modulus; for a negative exponent the inverse of the base modulo \<open>mod\<close> is raised to
  \<open>-exp\<close>, and \<open>ValueError\<close> is raised when the base is not invertible; the result has the
  sign of the modulus, as Python's \<open>%\<close> and Isabelle's \<open>mod\<close> both have.
\<close>

definition py_pow :: "int \<Rightarrow> int \<Rightarrow> int \<Rightarrow> error + int" where
  "py_pow b e m =
     (if m = 0 then Inl ValueError
      else if 0 \<le> e then Inr (b ^ nat e mod m)
      else (case find (\<lambda>i. (b * i) mod \<bar>m\<bar> = 1 mod \<bar>m\<bar>) (map int [0..<nat \<bar>m\<bar>]) of
              None \<Rightarrow> Inl ValueError
            | Some i \<Rightarrow> Inr (i ^ nat (- e) mod m)))"

subsection \<open>The helpers of bsrp.utils\<close>

text \<open>
  The module \<open>utils\<close> is imported by the client and is not part of the sources at hand.
  Its opaque contracts (group parameters, hash, key derivation, message derivation,
  random source) are the fields of a record that every client function takes; a hash
  argument is an integer or a byte string, as \<open>_Hash(prime, padded_generator)\<close> and
  \<open>_Hash(padded_A, padded_B)\<close> show.
\<close>

datatype harg = HInt int | HBytes bytes

record utils =
  get_srp_prime :: int
  get_srp_generator :: int
  Hash :: "harg list \<Rightarrow> error + bytes"
  calculate_x :: "bytes \<Rightarrow> string \<Rightarrow> string \<Rightarrow> error + int"
  calculate_M :: "int \<Rightarrow> int \<Rightarrow> string \<Rightarrow> bytes \<Rightarrow> int \<Rightarrow> int \<Rightarrow> bytes \<Rightarrow> error + bytes"
  generate_random_bytes :: "nat \<Rightarrow> error + bytes"

text \<open>The natural big-endian encoding of a non-negative integer; 0 has no byte.\<close>

fun to_bytes :: "nat \<Rightarrow> bytes" where
  "to_bytes n = (if n = 0 then [] else to_bytes (n div 256) @ [of_nat (n mod 256)])"

declare to_bytes.simps [simp del]

definition byte_length :: "int \<Rightarrow> nat" where
  "byte_length i = length (to_bytes (nat \<bar>i\<bar>))"

text \<open>
  Modelled from the spec: \<open>utils._to_int\<close> is missing from the sources. The spec gives
  ``ToInt(bytes) -> integer (big-endian unsigned)''.
\<close>

definition to_int :: "bytes \<Rightarrow> int" where
  "to_int bs = foldl (\<lambda>acc b. acc * 256 + uint b) 0 bs"

text \<open>
  Modelled from the spec: \<open>utils._pad\<close> is missing from the sources. The spec gives
  ``Pad(integer, width_bytes) -> byte sequence, big-endian, zero-left-padded, truncation
  is an error if the integer's natural encoding exceeds width_bytes'', for a non-negative
  integer. A negative integer has no unsigned encoding and is an error as well.
\<close>

definition pad :: "int \<Rightarrow> nat \<Rightarrow> error + bytes" where
  "pad v width =
     (if v < 0 then Inl OverflowError
      else let bs = to_bytes (nat v) in
        if width < length bs then Inl OverflowError
        else Inr (replicate (width - length bs) 0 @ bs))"

subsection \<open>The client\<close>

text \<open>\<open>generate_a_pair\<close>, lines 23 to 37.\<close>

definition generate_a_pair :: "utils \<Rightarrow> error + (int \<times> int)" where
  "generate_a_pair U =
     (let prime = get_srp_prime U;
          generator = get_srp_generator U
      in bind_result (generate_random_bytes U 32) (\<lambda>rnd.
         let a = to_int rnd
         in bind_result (py_pow generator a prime) (\<lambda>A.
            Inr (a, A))))"

text \<open>\<open>process_challenge\<close>, lines 40 to 112, statement by statement.\<close>

definition process_challenge ::
  "utils \<Rightarrow> string \<Rightarrow> string \<Rightarrow> bytes \<Rightarrow> int \<Rightarrow> int \<Rightarrow> int \<Rightarrow> error + (bytes \<times> bytes)" where
  "process_challenge U identity password salt a A B =
     (let prime = get_srp_prime U;
          width = bit_length prime;
          generator = get_srp_generator U
      in bind_result (pad generator width) (\<lambda>padded_generator.
         bind_result (pad A width) (\<lambda>padded_A.
         bind_result (pad B width) (\<lambda>padded_B.
         bind_result (Hash U [HBytes padded_A, HBytes padded_B]) (\<lambda>hu.
         let u = to_int hu
         in bind_result (calculate_x U salt identity password) (\<lambda>x.
         bind_result (Hash U [HInt prime, HBytes padded_generator]) (\<lambda>hk.
         let k = to_int hk
         in if B = 0 then Inl (SafetyException ''Public value B is 0. Auth Failed.'')
            else if u = 0 then Inl (SafetyException ''Scrambler u is 0. Auth Failed.'')
            else bind_result (py_pow generator x prime) (\<lambda>gx.
                 let t1 = B - k * gx;
                     t2 = a + u * x
                 in bind_result (py_pow t1 t2 prime) (\<lambda>S.
                    bind_result (Hash U [HInt S]) (\<lambda>session_key.
                    bind_result (calculate_M U generator prime identity salt A B session_key)
                      (\<lambda>M. Inr (M, session_key))))))))))))"

text \<open>\<open>verify_session\<close>, lines 115 to 135.\<close>

definition verify_session :: "utils \<Rightarrow> int \<Rightarrow> bytes \<Rightarrow> bytes \<Rightarrow> bytes \<Rightarrow> error + bytes" where
  "verify_session U A M session_key server_H_AMK =
     bind_result (Hash U [HInt A, HBytes M, HBytes session_key]) (\<lambda>client_H_AMK.
       if client_H_AMK \<noteq> server_H_AMK
       then Inl (EvidenceException ''Evidence keys do not match. Auth Failed.'')
       else Inr client_H_AMK)"

subsection \<open>Primality\<close>

text \<open>A prime has no divisor between 2 and itself; the group modulus is meant to be one.\<close>

definition is_prime :: "int \<Rightarrow> bool" where
  "is_prime p \<longleftrightarrow> 1 < p \<and> (\<forall>d \<in> set [2..p - 1]. \<not> d dvd p)"

subsection \<open>A toy group for concrete runs\<close>

text \<open>
  A small group (N = 23, g = 5) with stub collaborators: the hash is the sum of all
  bytes of its arguments modulo 11, as one byte; the derived key is the length of the
  password plus 3; the random source returns zero bytes ending in 6.
\<close>

fun harg_bytes :: "harg \<Rightarrow> bytes" where
  "harg_bytes (HInt i) = to_bytes (nat \<bar>i\<bar>)"
| "harg_bytes (HBytes bs) = bs"

definition toy_Hash :: "harg list \<Rightarrow> error + bytes" where
  "toy_Hash args = Inr [of_nat (sum_list (map unat (concat (map harg_bytes args))) mod 11)]"

definition toy_utils :: utils where
  "toy_utils = \<lparr>
     get_srp_prime = 23,
     get_srp_generator = 5,
     Hash = toy_Hash,
     calculate_x = (\<lambda>salt identity password. Inr (int (length password) + 3)),
     calculate_M = (\<lambda>g N identity salt A B K.
        toy_Hash [HInt g, HInt N, HBytes salt, HInt A, HInt B, HBytes K]),
     generate_random_bytes = (\<lambda>n. Inr (replicate (n - 1) 0 @ [6])) \<rparr>"


section \<open>Properties\<close>

subsection \<open>Raising and returning\<close>

lemma bind_result_Inr [simp]: "bind_result (Inr v) f = f v"
  by (simp add: bind_result_def)

lemma bind_result_Inl [simp]: "bind_result (Inl e) f = Inl e"
  by (simp add: bind_result_def)

lemma bind_result_eq_Inr: "bind_result m f = Inr r \<longleftrightarrow> (\<exists>v. m = Inr v \<and> f v = Inr r)"
  by (cases m) simp_all


subsection \<open>Decoding and padding\<close>

lemma to_int_Nil: "to_int [] = 0"
  by (simp add: to_int_def)

lemma to_int_snoc: "to_int (bs @ [b]) = to_int bs * 256 + uint b"
  by (simp add: to_int_def)

lemma to_int_nonneg: "0 \<le> to_int bs"
  by (induction bs rule: rev_induct) (simp_all add: to_int_Nil to_int_snoc)

lemma to_int_bound: "to_int bs < 256 ^ length bs"
proof (induction bs rule: rev_induct)
  case Nil
  show ?case by (simp add: to_int_Nil)
next
  case (snoc b bs)
  have "uint b < 256" using uint_bounded [of b] by simp
  with snoc show ?case by (simp add: to_int_snoc)
qed

lemma to_int_foldl:
  "foldl (\<lambda>acc b. acc * 256 + uint b) acc bs = acc * 256 ^ length bs + to_int bs"
  for bs :: bytes
  by (induction bs rule: rev_induct) (simp_all add: to_int_Nil to_int_snoc algebra_simps)

lemma to_int_Cons: "to_int (b # bs) = uint b * 256 ^ length bs + to_int bs"
  using to_int_foldl [of "uint b" bs] by (simp add: to_int_def)

lemma length_pad: "pad v w = Inr bs \<Longrightarrow> length bs = w"
  by (auto simp: pad_def Let_def split: if_splits)

lemma pad_zero: "pad 0 w = Inr (replicate w 0)"
  by (simp add: pad_def to_bytes.simps)

subsection \<open>Bits and bytes of an integer\<close>

lemma bit_length_nat_bound: "n < 2 ^ bit_length_nat n"
proof (induction n rule: bit_length_nat.induct)
  case (1 n)
  show ?case
  proof (cases "n = 0")
    case True
    then show ?thesis by (simp add: bit_length_nat.simps)
  next
    case False
    with 1 have "n div 2 < 2 ^ bit_length_nat (n div 2)" by simp
    then have "n < 2 * 2 ^ bit_length_nat (n div 2)" by linarith
    then show ?thesis using False by (subst bit_length_nat.simps) simp
  qed
qed

lemma length_to_bytes_bound: "n \<noteq> 0 \<Longrightarrow> 256 ^ (length (to_bytes n) - 1) \<le> n"
proof (induction n rule: to_bytes.induct)
  case (1 n)
  have len: "length (to_bytes n) = Suc (length (to_bytes (n div 256)))"
    using "1.prems" by (subst to_bytes.simps) simp
  show ?case
  proof (cases "n div 256 = 0")
    case True
    then have "length (to_bytes (n div 256)) = 0" by (simp add: to_bytes.simps)
    with len "1.prems" show ?thesis by simp
  next
    case False
    with 1 have IH: "256 ^ (length (to_bytes (n div 256)) - 1) \<le> n div 256" by simp
    have "0 < length (to_bytes (n div 256))"
      using False by (subst to_bytes.simps) simp
    then obtain k where k: "length (to_bytes (n div 256)) = Suc k"
      by (cases "length (to_bytes (n div 256))") simp_all
    have "256 ^ Suc k \<le> 256 * (n div 256)" using IH k by simp
    also have "\<dots> \<le> n" by simp
    finally show ?thesis by (simp add: len k)
  qed
qed

lemma byte_length_less_bit_length:
  assumes "2 \<le> \<bar>n\<bar>"
  shows "byte_length n < bit_length n"
proof -
  define m where "m = nat \<bar>n\<bar>"
  define L where "L = length (to_bytes m)"
  define b where "b = bit_length_nat m"
  have m: "2 \<le> m" using assms by (simp add: m_def)
  then have "256 ^ (L - 1) \<le> m"
    unfolding L_def by (intro length_to_bytes_bound) simp
  moreover have mb: "m < 2 ^ b"
    unfolding b_def by (rule bit_length_nat_bound)
  ultimately have "(256 :: nat) ^ (L - 1) < 2 ^ b" by simp
  moreover have "(256 :: nat) ^ (L - 1) = 2 ^ (8 * (L - 1))"
    by (simp add: power_mult)
  ultimately have "(2 :: nat) ^ (8 * (L - 1)) < 2 ^ b" by simp
  then have lt: "8 * (L - 1) < b" by simp
  have "2 \<le> b"
  proof (rule ccontr)
    assume "\<not> 2 \<le> b"
    then have "b = 0 \<or> b = 1" by auto
    with mb m show False by auto
  qed
  with lt have "L < b" by arith
  then show ?thesis by (simp add: byte_length_def bit_length_def L_def b_def m_def)
qed

subsection \<open>Primes and powers\<close>

lemma is_prime_divisor:
  assumes "is_prime p" and "d dvd p" and "0 < d"
  shows "d = 1 \<or> d = p"
proof -
  have "0 < p" using assms(1) by (simp add: is_prime_def)
  with assms(2) have "d \<le> p" by (rule zdvd_imp_le)
  moreover have "\<not> (2 \<le> d \<and> d \<le> p - 1)"
    using assms(1,2) by (auto simp: is_prime_def)
  ultimately show ?thesis using assms(3) by linarith
qed

lemma is_prime_coprime:
  assumes "is_prime p" and "\<not> p dvd g"
  shows "coprime p g"
proof -
  have p: "1 < p" using assms(1) by (simp add: is_prime_def)
  have "gcd p g dvd p" by simp
  moreover have "0 < gcd p g" using p by (simp add: gcd_pos_int)
  ultimately have "gcd p g = 1 \<or> gcd p g = p"
    using assms(1) by (rule is_prime_divisor [rotated])
  moreover have "gcd p g \<noteq> p"
  proof
    assume "gcd p g = p"
    then have "p dvd g" by (metis gcd_dvd2)
    with assms(2) show False by simp
  qed
  ultimately show ?thesis by (simp add: coprime_iff_gcd_eq_1)
qed

lemma is_prime_not_dvd_power:
  assumes "is_prime p" and "\<not> p dvd g"
  shows "\<not> p dvd g ^ n"
proof
  assume d: "p dvd g ^ n"
  have c: "coprime p (g ^ n)"
    using is_prime_coprime [OF assms] by simp
  have "is_unit p"
    by (rule coprime_common_divisor [OF c dvd_refl d])
  then have "\<bar>p\<bar> = 1" by simp
  moreover have "1 < p" using assms(1) by (simp add: is_prime_def)
  ultimately show False by simp
qed

subsection \<open>Modular exponentiation\<close>

lemma py_pow_nonneg_exp: "m \<noteq> 0 \<Longrightarrow> 0 \<le> e \<Longrightarrow> py_pow b e m = Inr (b ^ nat e mod m)"
  by (simp add: py_pow_def)


subsection \<open>The key pair generator\<close>

lemma generate_a_pair_run:
  assumes "get_srp_prime U \<noteq> 0"
  shows "generate_a_pair U =
     (case generate_random_bytes U 32 of
        Inl e \<Rightarrow> Inl e
      | Inr rnd \<Rightarrow> Inr (to_int rnd,
                   get_srp_generator U ^ nat (to_int rnd) mod get_srp_prime U))"
  using assms
  by (simp add: generate_a_pair_def Let_def py_pow_def to_int_nonneg split: sum.splits)

subsection \<open>The challenge processor, step by step\<close>

text \<open>
  Once the three paddings, the two hashes and the key derivation of lines 72 to 84 have
  returned, the rest of the function is the two safety checks followed by the
  computation of the secret, the session key and the message.
\<close>

lemma process_challenge_checked:
  assumes "pad (get_srp_generator U) (bit_length (get_srp_prime U)) = Inr pg"
    and "pad A (bit_length (get_srp_prime U)) = Inr pA"
    and "pad B (bit_length (get_srp_prime U)) = Inr pB"
    and "Hash U [HBytes pA, HBytes pB] = Inr hu"
    and "calculate_x U salt identity password = Inr x"
    and "Hash U [HInt (get_srp_prime U), HBytes pg] = Inr hk"
  shows "process_challenge U identity password salt a A B =
    (if B = 0 then Inl (SafetyException ''Public value B is 0. Auth Failed.'')
     else if to_int hu = 0 then Inl (SafetyException ''Scrambler u is 0. Auth Failed.'')
     else bind_result (py_pow (get_srp_generator U) x (get_srp_prime U)) (\<lambda>gx.
          bind_result (py_pow (B - to_int hk * gx) (a + to_int hu * x) (get_srp_prime U)) (\<lambda>S.
          bind_result (Hash U [HInt S]) (\<lambda>session_key.
          bind_result
            (calculate_M U (get_srp_generator U) (get_srp_prime U) identity salt A B session_key)
            (\<lambda>M. Inr (M, session_key))))))"
  by (simp add: process_challenge_def Let_def assms)

text \<open>Conversely, a returned pair comes from a run in which every step returned.\<close>

lemma process_challenge_InrD:
  assumes "process_challenge U identity password salt a A B = Inr (M, session_key)"
  shows "\<exists>pg pA pB hu x hk gx S.
      pad (get_srp_generator U) (bit_length (get_srp_prime U)) = Inr pg
    \<and> pad A (bit_length (get_srp_prime U)) = Inr pA
    \<and> pad B (bit_length (get_srp_prime U)) = Inr pB
    \<and> Hash U [HBytes pA, HBytes pB] = Inr hu
    \<and> calculate_x U salt identity password = Inr x
    \<and> Hash U [HInt (get_srp_prime U), HBytes pg] = Inr hk
    \<and> B \<noteq> 0 \<and> to_int hu \<noteq> 0
    \<and> py_pow (get_srp_generator U) x (get_srp_prime U) = Inr gx
    \<and> py_pow (B - to_int hk * gx) (a + to_int hu * x) (get_srp_prime U) = Inr S
    \<and> Hash U [HInt S] = Inr session_key
    \<and> calculate_M U (get_srp_generator U) (get_srp_prime U) identity salt A B session_key
        = Inr M"
  using assms
  by (auto simp: process_challenge_def Let_def bind_result_eq_Inr split: if_splits)

subsection \<open>Runs in the toy group\<close>

lemma toy_fields:
  "get_srp_prime toy_utils = 23"
  "get_srp_generator toy_utils = 5"
  "Hash toy_utils = toy_Hash"
  "calculate_x toy_utils salt identity password = Inr (int (length password) + 3)"
  "calculate_M toy_utils g N identity salt A B K =
     toy_Hash [HInt g, HInt N, HBytes salt, HInt A, HInt B, HBytes K]"
  "generate_random_bytes toy_utils n = Inr (replicate (n - 1) 0 @ [6])"
  by (simp_all add: toy_utils_def)

lemma bit_length_23: "bit_length 23 = 5"
  by code_simp

lemma byte_length_23: "byte_length 23 = 1"
  by code_simp

lemma toy_pad_generator:
  "pad (get_srp_generator toy_utils) (bit_length (get_srp_prime toy_utils)) = Inr [0, 0, 0, 0, 5]"
  unfolding toy_fields bit_length_23 by code_simp

lemma toy_pad_0: "pad 0 (bit_length (get_srp_prime toy_utils)) = Inr [0, 0, 0, 0, 0]"
  unfolding toy_fields bit_length_23 by code_simp


lemma toy_pad_7: "pad 7 (bit_length (get_srp_prime toy_utils)) = Inr [0, 0, 0, 0, 7]"
  unfolding toy_fields bit_length_23 by code_simp

lemma toy_pad_8: "pad 8 (bit_length (get_srp_prime toy_utils)) = Inr [0, 0, 0, 0, 8]"
  unfolding toy_fields bit_length_23 by code_simp

lemma toy_pad_23: "pad 23 (bit_length (get_srp_prime toy_utils)) = Inr [0, 0, 0, 0, 23]"
  unfolding toy_fields bit_length_23 by code_simp

lemma toy_hash_k:
  "Hash toy_utils [HInt (get_srp_prime toy_utils), HBytes [0, 0, 0, 0, 5]] = Inr [6]"
  unfolding toy_fields by code_simp

lemma toy_hash_u_0_0:
  "Hash toy_utils [HBytes [0, 0, 0, 0, 0], HBytes [0, 0, 0, 0, 0]] = Inr [0]"
  unfolding toy_fields by code_simp


lemma toy_hash_u_8_7:
  "Hash toy_utils [HBytes [0, 0, 0, 0, 8], HBytes [0, 0, 0, 0, 7]] = Inr [4]"
  unfolding toy_fields by code_simp

lemma toy_hash_u_8_23:
  "Hash toy_utils [HBytes [0, 0, 0, 0, 8], HBytes [0, 0, 0, 0, 23]] = Inr [9]"
  unfolding toy_fields by code_simp

lemma toy_x: "calculate_x toy_utils [1, 2] ''alice'' ''pw'' = Inr 5"
  by (simp add: toy_fields)

lemma to_int_single: "to_int [b] = uint b"
  by (simp add: to_int_def)


lemma is_prime_23: "is_prime 23"
  by code_simp

lemma toy_random_bytes: "generate_random_bytes toy_utils 32 = Inr (replicate 31 0 @ [6])"
  by (simp add: toy_fields)

lemma toy_random_decoded: "to_int (replicate 31 0 @ [6]) = 6"
  by code_simp

lemma toy_pair: "generate_a_pair toy_utils = Inr (6, 8)"
  by (simp add: generate_a_pair_run toy_fields(1,2) toy_random_bytes toy_random_decoded)

lemma toy_hash_S_16: "Hash toy_utils [HInt 16] = Inr [5]"
  unfolding toy_fields by code_simp

lemma toy_M_8_7:
  "calculate_M toy_utils 5 23 ''alice'' [1, 2] 8 7 [5] = Inr [7]"
  unfolding toy_fields by code_simp

lemma toy_hash_S_6: "Hash toy_utils [HInt 6] = Inr [6]"
  unfolding toy_fields by code_simp

lemma toy_M_8_23:
  "calculate_M toy_utils 5 23 ''alice'' [1, 2] 8 23 [6] = Inr [2]"
  unfolding toy_fields by code_simp

lemma toy_run_B_7:
  "process_challenge toy_utils ''alice'' ''pw'' [1, 2] 6 8 7 = Inr ([7], [5])"
  unfolding process_challenge_checked
    [OF toy_pad_generator toy_pad_8 toy_pad_7 toy_hash_u_8_7 toy_x toy_hash_k]
  by (simp add: py_pow_def toy_fields(1,2) to_int_single toy_hash_S_16 toy_M_8_7)










lemma toy_hash_amk: "Hash toy_utils [HInt 8, HBytes [4], HBytes [9]] = Inr [10]"
  unfolding toy_fields by code_simp

section \<open>The claims\<close>

subsection \<open>The safety check on B\<close>

text \<open>
  C1. Every B congruent to 0 modulo N, B = N and B = 2N included, is to make
  \<open>process_challenge\<close> raise the safety exception. Line 87 tests \<open>B == 0\<close> only: in
  the toy group, B = N = 23 is congruent to 0, passes both checks, and the function
  returns a message and a session key.
\<close>

theorem process_challenge_accepts_B_eq_prime:
  "23 mod get_srp_prime toy_utils = 0
   \<and> process_challenge toy_utils ''alice'' ''pw'' [1, 2] 6 8 23 = Inr ([2], [6])"
  unfolding process_challenge_checked
    [OF toy_pad_generator toy_pad_8 toy_pad_23 toy_hash_u_8_23 toy_x toy_hash_k]
  by (simp add: py_pow_def toy_fields(1,2) to_int_single toy_hash_S_6 toy_M_8_23)

subsection \<open>The padding width\<close>

text \<open>
  C2. The values g, A and B are to be padded to the byte length of N. Line 69 takes
  \<open>prime.bit_length()\<close> as the width: in every run that returns, the three values
  were padded to as many bytes as N has bits, the two hashes were taken of those, and
  for a modulus of absolute value at least 2 that width is strictly larger than the
  byte length of N.
\<close>

theorem process_challenge_pads_to_bit_length:
  assumes "process_challenge U identity password salt a A B = Inr (M, session_key)"
    and "2 \<le> \<bar>get_srp_prime U\<bar>"
  shows "\<exists>pg pA pB hu hk.
      pad (get_srp_generator U) (bit_length (get_srp_prime U)) = Inr pg
    \<and> pad A (bit_length (get_srp_prime U)) = Inr pA
    \<and> pad B (bit_length (get_srp_prime U)) = Inr pB
    \<and> Hash U [HBytes pA, HBytes pB] = Inr hu
    \<and> Hash U [HInt (get_srp_prime U), HBytes pg] = Inr hk
    \<and> length pg = bit_length (get_srp_prime U)
    \<and> length pA = bit_length (get_srp_prime U)
    \<and> length pB = bit_length (get_srp_prime U)
    \<and> byte_length (get_srp_prime U) < bit_length (get_srp_prime U)"
proof -
  from process_challenge_InrD [OF assms(1)] obtain pg pA pB hu hk where
    pads: "pad (get_srp_generator U) (bit_length (get_srp_prime U)) = Inr pg"
      "pad A (bit_length (get_srp_prime U)) = Inr pA"
      "pad B (bit_length (get_srp_prime U)) = Inr pB"
    and hashes: "Hash U [HBytes pA, HBytes pB] = Inr hu"
      "Hash U [HInt (get_srp_prime U), HBytes pg] = Inr hk"
    by blast
  show ?thesis
    using pads hashes pads [THEN length_pad] byte_length_less_bit_length [OF assms(2)]
    by blast
qed

theorem process_challenge_pads_to_bit_length_witness:
  "process_challenge toy_utils ''alice'' ''pw'' [1, 2] 6 8 7 = Inr ([7], [5])
   \<and> byte_length (get_srp_prime toy_utils) = 1
   \<and> bit_length (get_srp_prime toy_utils) = 5
   \<and> pad 8 (bit_length (get_srp_prime toy_utils)) = Inr [0, 0, 0, 0, 8]
   \<and> byte_length (get_srp_prime toy_utils) < bit_length (get_srp_prime toy_utils)"
proof -
  have N: "2 \<le> \<bar>get_srp_prime toy_utils\<bar>"
    by (simp add: toy_fields)
  from process_challenge_pads_to_bit_length [OF toy_run_B_7 N]
  have "byte_length (get_srp_prime toy_utils) < bit_length (get_srp_prime toy_utils)"
    by blast
  then show ?thesis
    using toy_run_B_7 toy_pad_8 by (simp add: toy_fields(1) byte_length_23 bit_length_23)
qed

subsection \<open>The premaster secret\<close>

text \<open>
  C3. For an input that passes both safety checks, with a positive modulus N and
  non-negative a and x, \<open>process_challenge\<close> hashes the premaster secret
  S = (B - k (g^x mod N))^(a + u x) mod N, where the exponent a + u x is the integer
  itself (not reduced), where a negative base gives the same result as its residue in
  [0, N), and where S lies in [0, N).
\<close>

theorem process_challenge_premaster_secret:
  fixes U :: utils
  defines "N \<equiv> get_srp_prime U" and "g \<equiv> get_srp_generator U"
  assumes "pad g (bit_length N) = Inr pg"
    and "pad A (bit_length N) = Inr pA"
    and "pad B (bit_length N) = Inr pB"
    and "Hash U [HBytes pA, HBytes pB] = Inr hu"
    and "calculate_x U salt identity password = Inr x"
    and "Hash U [HInt N, HBytes pg] = Inr hk"
    and "B \<noteq> 0" and "to_int hu \<noteq> 0"
    and "0 < N" and "0 \<le> a" and "0 \<le> x"
  defines "t1 \<equiv> B - to_int hk * (g ^ nat x mod N)"
    and "t2 \<equiv> a + to_int hu * x"
  defines "S \<equiv> t1 ^ nat t2 mod N"
  shows "process_challenge U identity password salt a A B
           = bind_result (Hash U [HInt S]) (\<lambda>session_key.
             bind_result (calculate_M U g N identity salt A B session_key) (\<lambda>M.
             Inr (M, session_key)))
       \<and> int (nat t2) = t2
       \<and> S = (t1 mod N) ^ nat t2 mod N
       \<and> 0 \<le> t1 mod N \<and> t1 mod N < N
       \<and> 0 \<le> S \<and> S < N"
proof -
  have t2: "0 \<le> t2"
    using \<open>0 \<le> a\<close> \<open>0 \<le> x\<close> to_int_nonneg [of hu] by (simp add: t2_def)
  have N: "N \<noteq> 0" using \<open>0 < N\<close> by simp
  have gx: "py_pow g x N = Inr (g ^ nat x mod N)"
    using N \<open>0 \<le> x\<close> by (rule py_pow_nonneg_exp)
  have S: "py_pow t1 t2 N = Inr S"
    unfolding S_def using N t2 by (rule py_pow_nonneg_exp)
  have run: "process_challenge U identity password salt a A B
           = bind_result (Hash U [HInt S]) (\<lambda>session_key.
             bind_result (calculate_M U g N identity salt A B session_key) (\<lambda>M.
             Inr (M, session_key)))"
    using assms(3-10) gx S
    by (simp add: process_challenge_checked [of U pg A pA B pB hu salt identity password x hk]
        N_def g_def t1_def t2_def)
  have norm: "S = (t1 mod N) ^ nat t2 mod N"
    by (simp add: S_def power_mod)
  show ?thesis
    using run t2 norm \<open>0 < N\<close> by (simp add: S_def)
qed

theorem process_challenge_premaster_secret_witness:
  "(7 - to_int [6] * (5 ^ nat 5 mod 23) :: int) < 0
   \<and> (7 - to_int [6] * (5 ^ nat 5 mod 23)) ^ nat (6 + to_int [4] * 5) mod 23 = (16 :: int)
   \<and> process_challenge toy_utils ''alice'' ''pw'' [1, 2] 6 8 7 = Inr ([7], [5])"
proof -
  have h: "(7 :: int) \<noteq> 0" "to_int [4] \<noteq> 0" "0 < get_srp_prime toy_utils"
    "(0 :: int) \<le> 6" "(0 :: int) \<le> 5"
    by (simp_all add: to_int_single toy_fields)
  from process_challenge_premaster_secret
    [OF toy_pad_generator toy_pad_8 toy_pad_7 toy_hash_u_8_7 toy_x toy_hash_k h]
  show ?thesis
    by (simp add: toy_fields(1,2) to_int_single toy_hash_S_16 toy_M_8_7)
qed

subsection \<open>The safety checks\<close>



subsection \<open>The hash inputs\<close>



subsection \<open>Session verification\<close>

text \<open>
  C6. \<open>verify_session\<close> computes client_H_AMK = H(A, M, session_key). Once the hash
  has returned, it raises the evidence exception exactly when the server's value
  differs from client_H_AMK (in length or in some byte), and otherwise returns
  client_H_AMK; the evidence exception is not the safety exception.
\<close>

theorem verify_session_evidence:
  assumes "Hash U [HInt A, HBytes M, HBytes session_key] = Inr client_H_AMK"
  shows "verify_session U A M session_key server_H_AMK
           = (if server_H_AMK = client_H_AMK then Inr client_H_AMK
              else Inl (EvidenceException ''Evidence keys do not match. Auth Failed.''))
       \<and> ((\<exists>msg. verify_session U A M session_key server_H_AMK = Inl (EvidenceException msg))
            \<longleftrightarrow> server_H_AMK \<noteq> client_H_AMK)
       \<and> (server_H_AMK \<noteq> client_H_AMK
            \<longleftrightarrow> length server_H_AMK \<noteq> length client_H_AMK
               \<or> (\<exists>i<length client_H_AMK. server_H_AMK ! i \<noteq> client_H_AMK ! i))
       \<and> (\<forall>msg msg'. EvidenceException msg \<noteq> SafetyException msg')"
proof -
  have run: "verify_session U A M session_key server_H_AMK
           = (if server_H_AMK = client_H_AMK then Inr client_H_AMK
              else Inl (EvidenceException ''Evidence keys do not match. Auth Failed.''))"
    by (auto simp: verify_session_def assms)
  have raised: "(\<exists>msg. verify_session U A M session_key server_H_AMK
                    = Inl (EvidenceException msg)) \<longleftrightarrow> server_H_AMK \<noteq> client_H_AMK"
    by (simp add: run)
  have differ: "server_H_AMK \<noteq> client_H_AMK
            \<longleftrightarrow> length server_H_AMK \<noteq> length client_H_AMK
               \<or> (\<exists>i<length client_H_AMK. server_H_AMK ! i \<noteq> client_H_AMK ! i)"
    by (auto simp: list_eq_iff_nth_eq)
  show ?thesis
    using run raised differ by simp
qed

theorem verify_session_evidence_witness:
  "verify_session toy_utils 8 [4] [9] [10] = Inr [10]
   \<and> verify_session toy_utils 8 [4] [9] [11]
       = Inl (EvidenceException ''Evidence keys do not match. Auth Failed.'')"
  using verify_session_evidence [OF toy_hash_amk, of "[10]"]
    verify_session_evidence [OF toy_hash_amk, of "[11]"]
  by simp

subsection \<open>The ephemeral key pair\<close>

text \<open>
  C7. For a non-zero modulus, \<open>generate_a_pair\<close> asks the random source for 32 bytes,
  returns (a, A) with a their big-endian unsigned decoding (a 256-bit value when the
  source returns the 32 bytes asked for) and A = g^a mod N, accepts every value of a,
  and fails only by passing on a failure of the random source unchanged.
\<close>

theorem generate_a_pair_result:
  assumes "get_srp_prime U \<noteq> 0"
  shows "generate_a_pair U =
           (case generate_random_bytes U 32 of
              Inl e \<Rightarrow> Inl e
            | Inr rnd \<Rightarrow> Inr (to_int rnd,
                         get_srp_generator U ^ nat (to_int rnd) mod get_srp_prime U))
       \<and> (\<forall>rnd. generate_random_bytes U 32 = Inr rnd \<and> length rnd = 32
             \<longrightarrow> 0 \<le> to_int rnd \<and> to_int rnd < 2 ^ 256)"
proof -
  have "to_int rnd < 2 ^ 256" if "length rnd = 32" for rnd
  proof -
    have "to_int rnd < 256 ^ 32" using to_int_bound [of rnd] that by simp
    then show ?thesis by simp
  qed
  then show ?thesis
    using generate_a_pair_run [OF assms] to_int_nonneg by simp
qed

theorem generate_a_pair_result_witness:
  "get_srp_prime toy_utils \<noteq> 0
   \<and> generate_a_pair toy_utils = Inr (6, 8)
   \<and> generate_a_pair (toy_utils\<lparr>generate_random_bytes := (\<lambda>n. Inl (UpstreamFailure ''entropy''))\<rparr>)
       = Inl (UpstreamFailure ''entropy'')"
proof -
  let ?U = "toy_utils\<lparr>generate_random_bytes := (\<lambda>n. Inl (UpstreamFailure ''entropy''))\<rparr>"
  have N: "get_srp_prime toy_utils \<noteq> 0" and N': "get_srp_prime ?U \<noteq> 0"
    by (simp_all add: toy_fields)
  from generate_a_pair_result [OF N] generate_a_pair_result [OF N']
  show ?thesis
    by (simp add: toy_fields(1,2) toy_random_bytes toy_random_decoded)
qed

subsection \<open>Determinism\<close>

text \<open>
  C8. \<open>process_challenge\<close> is deterministic: two invocations with the same
  (N, g, identity, password, salt, a, A, B) and the same hash, key-derivation and
  message-derivation contracts return the same result, whatever the random source of
  either invocation is: the function draws no randomness.
\<close>

theorem process_challenge_deterministic:
  assumes "get_srp_prime U = get_srp_prime U'"
    and "get_srp_generator U = get_srp_generator U'"
    and "Hash U = Hash U'"
    and "calculate_x U = calculate_x U'"
    and "calculate_M U = calculate_M U'"
  shows "process_challenge U identity password salt a A B
       = process_challenge U' identity password salt a A B"
  unfolding process_challenge_def assms by (rule refl)

theorem process_challenge_deterministic_witness:
  "process_challenge toy_utils ''alice'' ''pw'' [1, 2] 6 8 7
   = process_challenge (toy_utils\<lparr>generate_random_bytes := (\<lambda>n. Inl (UpstreamFailure ''entropy''))\<rparr>)
       ''alice'' ''pw'' [1, 2] 6 8 7
   \<and> generate_random_bytes toy_utils 32
       \<noteq> generate_random_bytes
           (toy_utils\<lparr>generate_random_bytes := (\<lambda>n. Inl (UpstreamFailure ''entropy''))\<rparr>) 32"
proof -
  have "process_challenge toy_utils ''alice'' ''pw'' [1, 2] 6 8 7
   = process_challenge (toy_utils\<lparr>generate_random_bytes := (\<lambda>n. Inl (UpstreamFailure ''entropy''))\<rparr>)
       ''alice'' ''pw'' [1, 2] 6 8 7"
    by (rule process_challenge_deterministic) simp_all
  then show ?thesis
    by (simp add: toy_fields)
qed

subsection \<open>The public value\<close>

text \<open>
  C9. For a positive modulus N, a pair (a, A) returned by \<open>generate_a_pair\<close> has
  a non-negative a and 0 <= A < N; when N is prime and does not divide g, A is not
  congruent to 0 modulo N, although the function makes no such check.
\<close>

theorem generate_a_pair_public_value:
  assumes "generate_a_pair U = Inr (a, A)" and "0 < get_srp_prime U"
  shows "0 \<le> a
       \<and> A = get_srp_generator U ^ nat a mod get_srp_prime U
       \<and> 0 \<le> A \<and> A < get_srp_prime U
       \<and> (is_prime (get_srp_prime U) \<and> \<not> get_srp_prime U dvd get_srp_generator U
            \<longrightarrow> A mod get_srp_prime U \<noteq> 0)"
proof -
  let ?N = "get_srp_prime U" and ?g = "get_srp_generator U"
  from assms have "\<exists>rnd. a = to_int rnd \<and> A = ?g ^ nat (to_int rnd) mod ?N"
    by (auto simp: generate_a_pair_run split: sum.splits)
  then have a: "0 \<le> a" and A: "A = ?g ^ nat a mod ?N"
    by (auto simp: to_int_nonneg)
  have range: "0 \<le> A \<and> A < ?N"
    using assms(2) by (simp add: A)
  have nonzero: "A mod ?N \<noteq> 0" if "is_prime ?N" and "\<not> ?N dvd ?g"
  proof -
    have "\<not> ?N dvd ?g ^ nat a"
      using that by (rule is_prime_not_dvd_power)
    then show ?thesis by (simp add: A dvd_eq_mod_eq_0)
  qed
  show ?thesis
  proof (intro conjI impI)
    show "0 \<le> a" by (rule a)
    show "A = ?g ^ nat a mod ?N" by (rule A)
    show "0 \<le> A" using range by simp
    show "A < ?N" using range by simp
    show "A mod ?N \<noteq> 0" if "is_prime ?N \<and> \<not> ?N dvd ?g"
      using that nonzero by simp
  qed
qed

theorem generate_a_pair_public_value_witness:
  "generate_a_pair toy_utils = Inr (6, 8)
   \<and> 0 < get_srp_prime toy_utils
   \<and> is_prime (get_srp_prime toy_utils)
   \<and> \<not> get_srp_prime toy_utils dvd get_srp_generator toy_utils
   \<and> (8::int) = 5 ^ 6 mod 23 \<and> (8::int) mod 23 \<noteq> 0"
proof -
  have N: "0 < get_srp_prime toy_utils"
    by (simp add: toy_fields)
  from generate_a_pair_public_value [OF toy_pair N]
  show ?thesis
    by (simp add: toy_pair toy_fields(1,2) is_prime_23)
qed

subsection \<open>Order of the safety checks\<close>

text \<open>
  C10. When both safety conditions hold for an input of \<open>process_challenge\<close> (B is 0
  and the scrambling parameter u decodes to 0), the exception raised is the one of the
  B check: that check is evaluated first, and the u condition is not reported.
\<close>

theorem process_challenge_B_check_first:
  assumes "pad (get_srp_generator U) (bit_length (get_srp_prime U)) = Inr pg"
    and "pad A (bit_length (get_srp_prime U)) = Inr pA"
    and "pad B (bit_length (get_srp_prime U)) = Inr pB"
    and "Hash U [HBytes pA, HBytes pB] = Inr hu"
    and "calculate_x U salt identity password = Inr x"
    and "Hash U [HInt (get_srp_prime U), HBytes pg] = Inr hk"
    and "B = 0" and "to_int hu = 0"
  shows "process_challenge U identity password salt a A B
           = Inl (SafetyException ''Public value B is 0. Auth Failed.'')
       \<and> process_challenge U identity password salt a A B
           \<noteq> Inl (SafetyException ''Scrambler u is 0. Auth Failed.'')"
  unfolding process_challenge_checked [OF assms(1-6)] using assms(7) by simp

theorem process_challenge_B_check_first_witness:
  "to_int [0] = 0
   \<and> process_challenge toy_utils ''alice'' ''pw'' [1, 2] 6 0 0
       = Inl (SafetyException ''Public value B is 0. Auth Failed.'')
   \<and> process_challenge toy_utils ''alice'' ''pw'' [1, 2] 6 0 0
       \<noteq> Inl (SafetyException ''Scrambler u is 0. Auth Failed.'')"
proof -
  have u0: "to_int [0] = 0"
    by (simp add: to_int_single)
  from process_challenge_B_check_first
    [OF toy_pad_generator toy_pad_0 toy_pad_0 toy_hash_u_0_0 toy_x toy_hash_k refl u0, of 6]
  show ?thesis using u0 by simp
qed

end
